theory Spec2Isabelle
  imports Main "HOL-Library.Sublist"
begin

section \<open>Python string operations used by the migration engine\<close>

text \<open>
  Python strings are modelled as \<open>string\<close> (lists of characters with code points below
  256). The operations below are the ones the source calls: \<open>str.strip()\<close>,
  \<open>str.split(sep)\<close> with a one-character separator, \<open>str.startswith\<close>,
  \<open>sep.join\<close>, \<open>str.replace\<close> of one character and the substring test \<open>in\<close>.
\<close>

abbreviation LF :: char where "LF \<equiv> CHR 0x0A"
abbreviation CR :: char where "CR \<equiv> CHR 0x0D"
abbreviation SEMI :: char where "SEMI \<equiv> CHR 0x3B"

text \<open>\<open>str.isspace\<close> on one character: the code points below 256 that Python strips.\<close>

definition is_space :: "char \<Rightarrow> bool" where
  "is_space c = (c \<in> set [CHR 0x09, CHR 0x0A, CHR 0x0B, CHR 0x0C, CHR 0x0D,
                            CHR 0x1C, CHR 0x1D, CHR 0x1E, CHR 0x1F, CHR 0x20,
                            CHR 0x85, CHR 0xA0])"

definition lstrip :: "string \<Rightarrow> string" where
  "lstrip s = dropWhile is_space s"

definition rstrip :: "string \<Rightarrow> string" where
  "rstrip s = rev (dropWhile is_space (rev s))"

definition strip :: "string \<Rightarrow> string" where
  "strip s = lstrip (rstrip s)"

text \<open>\<open>s.split(sep)\<close>: the result is never empty; \<open>''.split(';') = ['']\<close>.\<close>

fun split_on :: "char \<Rightarrow> string \<Rightarrow> string list" where
  "split_on sep [] = [[]]"
| "split_on sep (c # cs) =
     (if c = sep then [] # split_on sep cs
      else (case split_on sep cs of
              [] \<Rightarrow> [[c]]
            | p # ps \<Rightarrow> (c # p) # ps))"

text \<open>\<open>sep.join(parts)\<close>.\<close>

fun join_with :: "string \<Rightarrow> string list \<Rightarrow> string" where
  "join_with sep [] = []"
| "join_with sep [p] = p"
| "join_with sep (p # q # ps) = p @ sep @ join_with sep (q # ps)"

definition startswith :: "string \<Rightarrow> string \<Rightarrow> bool" where
  "startswith s pre = (take (length pre) s = pre)"

text \<open>\<open>sub in s\<close> for strings.\<close>

fun contains :: "string \<Rightarrow> string \<Rightarrow> bool" where
  "contains [] sub = (sub = [])"
| "contains (c # cs) sub = (startswith (c # cs) sub \<or> contains cs sub)"

text \<open>\<open>s.replace(a, b)\<close> for one-character \<open>a\<close> and \<open>b\<close>.\<close>

definition replace_char :: "char \<Rightarrow> char \<Rightarrow> string \<Rightarrow> string" where
  "replace_char a b s = map (\<lambda>c. if c = a then b else c) s"

section \<open>Session ledger (\<open>SessionManager\<close>, migration\_worker.py)\<close>

text \<open>
  The session file is either absent (\<open>session_file.exists()\<close> is false), present but
  not usable (\<open>open\<close> raises, which both methods catch and log), or present with a text
  content.
\<close>

datatype session_file = Missing | Unusable | Content string

text \<open>
  Reading a file opened in text mode translates \<open>\r\n\<close> and a lone \<open>\r\<close> to \<open>\n\<close>
  (universal newlines); iterating over it yields the lines with their terminating
  \<open>\n\<close>, the last one without it when the text does not end with a newline.
\<close>

fun universal_newlines :: "string \<Rightarrow> string" where
  "universal_newlines [] = []"
| "universal_newlines [c] = (if c = CR then [LF] else [c])"
| "universal_newlines (c # d # cs) =
     (if c = CR then
        (if d = LF then LF # universal_newlines cs
         else LF # universal_newlines (d # cs))
      else c # universal_newlines (d # cs))"

fun iter_lines :: "string \<Rightarrow> string \<Rightarrow> string list" where
  "iter_lines cur [] = (if cur = [] then [] else [cur])"
| "iter_lines cur (c # cs) =
     (if c = LF then (cur @ [c]) # iter_lines [] cs
      else iter_lines (cur @ [c]) cs)"

definition file_lines :: "string \<Rightarrow> string list" where
  "file_lines text = iter_lines [] (universal_newlines text)"

text \<open>
  \<open>record_session\<close>: \<open>open(session_file, 'a')\<close> creates a missing file and appends the
  line \<open>account_mail;information\n\<close>. A failure of \<open>open\<close> is logged and swallowed: the
  ledger is left as it was.
\<close>

definition session_entry :: "string \<Rightarrow> string \<Rightarrow> string" where
  "session_entry account_mail information = account_mail @ [SEMI] @ information @ [LF]"

fun record_session :: "session_file \<Rightarrow> string \<Rightarrow> string \<Rightarrow> session_file" where
  "record_session Missing account_mail information =
     Content (session_entry account_mail information)"
| "record_session Unusable account_mail information = Unusable"
| "record_session (Content text) account_mail information =
     Content (text @ session_entry account_mail information)"

text \<open>
  The loop of \<open>check_session\<close> over the lines of the file, with its early
  \<open>return True\<close>.
\<close>

fun scan_lines :: "string \<Rightarrow> string \<Rightarrow> string list \<Rightarrow> bool" where
  "scan_lines account_mail session_type [] = False"
| "scan_lines account_mail session_type (line # rest) =
     (let parts = split_on SEMI (strip line) in
      if length parts \<ge> 2 \<and> parts ! 0 = account_mail then
        (if startswith (parts ! 1) session_type then True
         else scan_lines account_mail session_type rest)
      else scan_lines account_mail session_type rest)"

fun check_session :: "session_file \<Rightarrow> string \<Rightarrow> string \<Rightarrow> bool" where
  "check_session Missing account_mail session_type = False"
| "check_session Unusable account_mail session_type = False"
| "check_session (Content text) account_mail session_type =
     scan_lines account_mail session_type (file_lines text)"

text \<open>
  Vocabulary of the ledger format: the fields of a line, and a ledger whose text is
  empty or ends with a newline, as every ledger is that \<open>record_session\<close> built from
  an empty or missing file.
\<close>

definition line_fields :: "string \<Rightarrow> string list" where
  "line_fields line = split_on SEMI (strip line)"

fun ledger_ok :: "session_file \<Rightarrow> bool" where
  "ledger_ok Missing = True"
| "ledger_ok Unusable = False"
| "ledger_ok (Content text) = (text = [] \<or> last text = LF)"

text \<open>
  An account address that the one-line-per-entry format can hold: no field separator,
  no line break, no leading white space.
\<close>

definition addr_ok :: "string \<Rightarrow> bool" where
  "addr_ok a = (SEMI \<notin> set a \<and> LF \<notin> set a \<and> CR \<notin> set a \<and> (a = [] \<or> \<not> is_space (hd a)))"

section \<open>Calendar dates (\<open>Account.get_last_full_date\<close>, account.py)\<close>

text \<open>
  \<open>get_last_full_date\<close> takes the modification time of the backup archive, keeps its
  local calendar date (\<open>strftime('%Y-%m-%d')\<close> followed by \<open>strptime\<close>), subtracts
  \<open>timedelta(days=1)\<close> and formats the result with \<open>'%m/%d/%Y'\<close>. A date is a record of
  year, month and day in the proleptic Gregorian calendar of Python's \<open>datetime\<close>.
\<close>

record date =
  year :: nat
  month :: nat
  day :: nat

definition is_leap :: "nat \<Rightarrow> bool" where
  "is_leap y = (y mod 4 = 0 \<and> (y mod 100 \<noteq> 0 \<or> y mod 400 = 0))"

definition days_in_month :: "nat \<Rightarrow> nat \<Rightarrow> nat" where
  "days_in_month y m =
     (if m = 2 then (if is_leap y then 29 else 28)
      else if m = 4 \<or> m = 6 \<or> m = 9 \<or> m = 11 then 30
      else 31)"

definition valid_date :: "date \<Rightarrow> bool" where
  "valid_date d = (1 \<le> year d \<and> year d \<le> 9999 \<and> 1 \<le> month d \<and> month d \<le> 12 \<and>
                   1 \<le> day d \<and> day d \<le> days_in_month (year d) (month d))"

text \<open>\<open>d - timedelta(days=1)\<close> on the date part.\<close>

definition minus_one_day :: "date \<Rightarrow> date" where
  "minus_one_day d =
     (if 1 < day d then d\<lparr>day := day d - 1\<rparr>
      else if 1 < month d then
        d\<lparr>month := month d - 1, day := days_in_month (year d) (month d - 1)\<rparr>
      else \<lparr>year = year d - 1, month = 12, day = 31\<rparr>)"

text \<open>
  The proleptic Gregorian ordinal of a date (\<open>date.toordinal()\<close>, day 1 is 0001-01-01),
  the measure against which "one calendar day earlier" is stated.
\<close>

definition days_before_year :: "nat \<Rightarrow> nat" where
  "days_before_year y = (y - 1) * 365 + (y - 1) div 4 - (y - 1) div 100 + (y - 1) div 400"

fun days_before_month :: "nat \<Rightarrow> nat \<Rightarrow> nat" where
  "days_before_month y 0 = 0"
| "days_before_month y (Suc 0) = 0"
| "days_before_month y (Suc (Suc m)) = days_before_month y (Suc m) + days_in_month y (Suc m)"

definition toordinal :: "date \<Rightarrow> nat" where
  "toordinal d = days_before_year (year d) + days_before_month (year d) (month d) + day d"

text \<open>\<open>strftime('%m/%d/%Y')\<close>: zero-padded month and day, four-digit year.\<close>

definition digit :: "nat \<Rightarrow> char" where
  "digit n = ''0123456789'' ! (n mod 10)"

definition pad2 :: "nat \<Rightarrow> string" where
  "pad2 n = [digit (n div 10), digit n]"

definition pad4 :: "nat \<Rightarrow> string" where
  "pad4 n = [digit (n div 1000), digit (n div 100), digit (n div 10), digit n]"

definition strftime_mdY :: "date \<Rightarrow> string" where
  "strftime_mdY d = pad2 (month d) @ ''/'' @ pad2 (day d) @ ''/'' @ pad4 (year d)"

section \<open>LDIFF rewriting (\<open>BackupManager.modify_ldiff_for_load_balancing\<close>)\<close>

text \<open>The loop over the lines, with the list \<open>modified_lines\<close> it appends to.\<close>

fun modify_lines :: "string \<Rightarrow> string list \<Rightarrow> string list \<Rightarrow> string list" where
  "modify_lines target_store modified_lines [] = modified_lines"
| "modify_lines target_store modified_lines (line # lines) =
     (if startswith line ''zimbraMailHost:'' then
        modify_lines target_store (modified_lines @ [''zimbraMailHost: '' @ target_store]) lines
      else if startswith line ''zimbraMailTransport:'' then
        modify_lines target_store
          (modified_lines @ [''zimbraMailTransport: lmtp:'' @ target_store @ '':7025'']) lines
      else if startswith line ''zimbraPrefChildVisibleAccount:'' then
        modify_lines target_store modified_lines lines
      else modify_lines target_store (modified_lines @ [line]) lines)"

definition modify_ldiff_text :: "string \<Rightarrow> string \<Rightarrow> string" where
  "modify_ldiff_text target_store ldiff_content =
     join_with [LF] (modify_lines target_store [] (split_on LF ldiff_content))"

text \<open>
  The line rule as the specification words it: the mail-host line is replaced, the
  child-visible-account line is dropped (\<open>None\<close>), every other line is kept.
\<close>

definition spec_line_rule :: "string \<Rightarrow> string \<Rightarrow> string option" where
  "spec_line_rule target_store line =
     (if prefix ''zimbraMailHost:'' line then Some (''zimbraMailHost: '' @ target_store)
      else if prefix ''zimbraPrefChildVisibleAccount:'' line then None
      else Some line)"

text \<open>The line rule with the mail-transport line, which the code rewrites as well.\<close>

definition line_rule :: "string \<Rightarrow> string \<Rightarrow> string option" where
  "line_rule target_store line =
     (if prefix ''zimbraMailHost:'' line then Some (''zimbraMailHost: '' @ target_store)
      else if prefix ''zimbraMailTransport:'' line then
        Some (''zimbraMailTransport: lmtp:'' @ target_store @ '':7025'')
      else if prefix ''zimbraPrefChildVisibleAccount:'' line then None
      else Some line)"

section \<open>Static partitioning (\<open>ZimbraMigrator.run_migration\<close>)\<close>

datatype error =
    KeyError string
  | IndexError
  | FileNotFoundError string
  | ZeroDivisionError

text \<open>\<open>xs[start:stop]\<close> for non-negative bounds: out-of-range bounds are clamped.\<close>

definition py_slice :: "'a list \<Rightarrow> nat \<Rightarrow> nat \<Rightarrow> 'a list" where
  "py_slice xs start stop = take (stop - start) (drop start xs)"

definition thread_accounts :: "'a list \<Rightarrow> int \<Rightarrow> nat \<Rightarrow> nat \<Rightarrow> 'a list" where
  "thread_accounts accs num_threads accounts_per_thread i =
     (let start_idx = i * accounts_per_thread;
          end_idx = (if int i < num_threads - 1 then start_idx + accounts_per_thread
                     else length accs)
      in py_slice accs start_idx end_idx)"

text \<open>
  The batches handed to the workers, in worker order. One thread gets the whole list;
  otherwise \<open>len(accounts) // num_threads\<close> raises for zero threads and \<open>range\<close> is
  empty for a negative count.
\<close>

definition worker_batches :: "'a list \<Rightarrow> int \<Rightarrow> error + 'a list list" where
  "worker_batches accs num_threads =
     (if num_threads = 1 then Inr [accs]
      else if num_threads = 0 then Inl ZeroDivisionError
      else
        (let accounts_per_thread = nat (int (length accs) div num_threads)
         in Inr (map (thread_accounts accs num_threads accounts_per_thread)
                     [0..<nat num_threads])))"

text \<open>
  The balance condition of the specification: any two batch sizes differ by at most
  one less than the largest batch size.
\<close>

definition largest_batch :: "'a list list \<Rightarrow> nat" where
  "largest_batch bs = fold max (map length bs) 0"

definition balanced :: "'a list list \<Rightarrow> bool" where
  "balanced bs =
     list_all (\<lambda>b. list_all (\<lambda>c. \<bar>int (length b) - int (length c)\<bar>
                                     \<le> int (largest_batch bs) - 1) bs) bs"

section \<open>Accounts, files and external commands\<close>

text \<open>
  The \<open>Account\<close> dataclass of account.py. Paths are strings; \<open>root_folder / mail\<close> is
  written with a slash.
\<close>

record account =
  mail :: string
  mail_dst :: string
  zimbra_mail_host :: string
  is_migrated :: bool
  is_exported :: bool
  is_incr_migrated :: bool
  is_incr_exported :: bool
  is_ldiff_exported :: bool
  is_ldiff_imported :: bool
  root_folder :: string

definition account_folder :: "account \<Rightarrow> string" where
  "account_folder a = root_folder a @ ''/'' @ mail a"

definition ldiff_path :: "account \<Rightarrow> string" where
  "ldiff_path a = account_folder a @ ''/'' @ mail a @ ''.ldiff''"

definition backup_path :: "account \<Rightarrow> string" where
  "backup_path a = account_folder a @ ''/'' @ mail a @ ''.tgz''"

definition inc_path :: "account \<Rightarrow> string \<Rightarrow> string" where
  "inc_path a inc_date =
     account_folder a @ ''/'' @ mail a @ ''-''
       @ replace_char (CHR ''/'') (CHR ''-'') inc_date @ ''.tgz''"

text \<open>
  What \<open>stat()\<close> tells about an archive on disk: its size and the local calendar date
  of its modification time.
\<close>

record archive =
  st_size :: nat
  mdate :: date

text \<open>
  The external commands that \<open>_execute_command\<close> runs, named by what they do and for
  which account: \<open>ldapsearch\<close>, \<open>ldapadd\<close>, the four \<open>curl\<close> transfers and the
  \<open>ssh\<close> cutover.
\<close>

datatype call =
    LdapSearch string
  | LdapAdd string
  | CurlExportFull string
  | CurlImportFull string
  | CurlExportIncr string string
  | CurlImportIncr string string
  | SshCutover string

text \<open>
  The answer of the outside world to one command: the return code, the combined output,
  and for a \<open>curl -o\<close> download the archive it leaves at the output path (\<open>None\<close> when
  it writes nothing). A command that cannot be started is the answer with return code 1,
  as the \<open>except\<close> branch of \<open>_execute_command\<close> returns it. The world is a function of
  the command and of the number of commands run before it.
\<close>

record reply =
  returncode :: int
  outp :: string
  written :: "archive option"

type_synonym world = "call \<Rightarrow> nat \<Rightarrow> reply"

text \<open>
  The state a worker acts on: its batch of accounts (mutated in place, addressed by
  position), the session file, the LDIFF text files and the archives on disk, and the
  commands run so far.
\<close>

record state =
  accounts :: "account list"
  ledger :: session_file
  texts :: "string \<Rightarrow> string option"
  archives :: "string \<Rightarrow> archive option"
  trace :: "call list"

definition acct :: "state \<Rightarrow> nat \<Rightarrow> account" where
  "acct s i = accounts s ! i"

definition set_acct :: "nat \<Rightarrow> (account \<Rightarrow> account) \<Rightarrow> state \<Rightarrow> state" where
  "set_acct i f s = s\<lparr>accounts := (accounts s)[i := f (accounts s ! i)]\<rparr>"

definition execute_command :: "world \<Rightarrow> call \<Rightarrow> state \<Rightarrow> reply \<times> state" where
  "execute_command ex c s = (ex c (length (trace s)), s\<lparr>trace := trace s @ [c]\<rparr>)"

definition curl_output :: "reply \<Rightarrow> string \<Rightarrow> state \<Rightarrow> state" where
  "curl_output r path s =
     (case written r of
        None \<Rightarrow> s
      | Some ar \<Rightarrow> s\<lparr>archives := (archives s)(path \<mapsto> ar)\<rparr>)"

definition verify_curl_response :: "string \<Rightarrow> bool" where
  "verify_curl_response out =
     (let has_success = (contains out ''HTTP/1.1 200 OK'' \<or> contains out ''HTTP/1.1 204 No Content'');
          has_error = contains out ''500 Server Error''
      in has_success \<and> \<not> has_error)"

text \<open>\<open>Account.get_last_full_date\<close>.\<close>

definition get_last_full_date :: "state \<Rightarrow> account \<Rightarrow> string option" where
  "get_last_full_date s a =
     (case archives s (backup_path a) of
        None \<Rightarrow> None
      | Some ar \<Rightarrow> Some (strftime_mdY (minus_one_day (mdate ar))))"

text \<open>Python truth of an optional string: \<open>None\<close> and the empty string are false.\<close>

fun truthy :: "string option \<Rightarrow> bool" where
  "truthy None = False"
| "truthy (Some v) = (v \<noteq> [])"

text \<open>\<open>ldap_config[k]\<close> for each key in turn: the first missing key raises.\<close>

fun require_keys :: "(string \<Rightarrow> string option) \<Rightarrow> string list \<Rightarrow> error option" where
  "require_keys cfg [] = None"
| "require_keys cfg (k # ks) =
     (case cfg k of None \<Rightarrow> Some (KeyError k) | Some v \<Rightarrow> require_keys cfg ks)"

section \<open>Transfer operations (\<open>BackupManager\<close>, backup\_manager.py)\<close>

text \<open>
  Each operation takes the position of the account in the batch and returns the new
  state with either the exception it raises or its return value. Writing logs and
  creating the account folder are left out.
\<close>

definition export_ldiff ::
  "world \<Rightarrow> (string \<Rightarrow> string option) \<Rightarrow> nat \<Rightarrow> state \<Rightarrow> state \<times> (error + bool)" where
  "export_ldiff ex ldap_config i s =
     (case require_keys ldap_config
             [''ldap_protocol'', ''ldap_host'', ''ldap_port'', ''ldap_user'', ''ldap_pass''] of
        Some e \<Rightarrow> (s, Inl e)
      | None \<Rightarrow>
          (let (r, s1) = execute_command ex (LdapSearch (mail (acct s i))) s in
           if returncode r = 0 then
             (set_acct i (\<lambda>a. a\<lparr>is_ldiff_exported := True\<rparr>)
                (s1\<lparr>texts := (texts s1)(ldiff_path (acct s i) \<mapsto> outp r)\<rparr>), Inr True)
           else (set_acct i (\<lambda>a. a\<lparr>is_ldiff_exported := False\<rparr>) s1, Inr False)))"

definition import_ldiff ::
  "world \<Rightarrow> (string \<Rightarrow> string option) \<Rightarrow> nat \<Rightarrow> state \<Rightarrow> state \<times> (error + bool)" where
  "import_ldiff ex ldap_config i s =
     (if \<not> is_ldiff_exported (acct s i) then (s, Inr False)
      else
        (case require_keys ldap_config
                [''ldap_host'', ''ldap_port'', ''ldap_user'', ''ldap_pass''] of
           Some e \<Rightarrow> (s, Inl e)
         | None \<Rightarrow>
             (let (r, s1) = execute_command ex (LdapAdd (mail (acct s i))) s in
              if returncode r = 0 then
                (set_acct i (\<lambda>a. a\<lparr>is_ldiff_imported := True\<rparr>) s1, Inr True)
              else (set_acct i (\<lambda>a. a\<lparr>is_ldiff_imported := False\<rparr>) s1, Inr False))))"

definition export_full_backup :: "world \<Rightarrow> nat \<Rightarrow> state \<Rightarrow> state \<times> bool" where
  "export_full_backup ex i s =
     (let (r, s1) = execute_command ex (CurlExportFull (mail (acct s i))) s;
          s2 = curl_output r (backup_path (acct s i)) s1
      in if verify_curl_response (outp r) then
           (set_acct i (\<lambda>a. a\<lparr>is_exported := True\<rparr>) s2, True)
         else (set_acct i (\<lambda>a. a\<lparr>is_exported := False\<rparr>) s2, False))"

definition import_full_backup :: "world \<Rightarrow> nat \<Rightarrow> string \<Rightarrow> state \<Rightarrow> state \<times> bool" where
  "import_full_backup ex i host s =
     (if \<not> is_exported (acct s i) then (s, False)
      else
        (let (r, s1) = execute_command ex (CurlImportFull (mail (acct s i))) s in
         if verify_curl_response (outp r) then
           (set_acct i (\<lambda>a. a\<lparr>is_migrated := True\<rparr>) s1, True)
         else (set_acct i (\<lambda>a. a\<lparr>is_migrated := False\<rparr>) s1, False)))"

definition export_incremental_backup ::
  "world \<Rightarrow> nat \<Rightarrow> string \<Rightarrow> state \<Rightarrow> state \<times> bool" where
  "export_incremental_backup ex i inc_date s =
     (let (r, s1) = execute_command ex (CurlExportIncr (mail (acct s i)) inc_date) s;
          s2 = curl_output r (inc_path (acct s i) inc_date) s1
      in if verify_curl_response (outp r) then
           (set_acct i (\<lambda>a. a\<lparr>is_incr_exported := True\<rparr>) s2, True)
         else (set_acct i (\<lambda>a. a\<lparr>is_incr_exported := False\<rparr>) s2, False))"

definition perform_cutover :: "world \<Rightarrow> nat \<Rightarrow> state \<Rightarrow> state" where
  "perform_cutover ex i s = snd (execute_command ex (SshCutover (mail (acct s i))) s)"

text \<open>
  \<open>import_incremental_backup\<close>: \<open>inc_path.stat()\<close> raises when the artifact does not
  exist; an artifact of size zero is a successful no-op followed by the cutover.
\<close>

definition import_incremental_backup ::
  "world \<Rightarrow> nat \<Rightarrow> string \<Rightarrow> string \<Rightarrow> state \<Rightarrow> state \<times> (error + bool)" where
  "import_incremental_backup ex i inc_date host s =
     (case archives s (inc_path (acct s i) inc_date) of
        None \<Rightarrow> (s, Inl (FileNotFoundError (inc_path (acct s i) inc_date)))
      | Some ar \<Rightarrow>
          if st_size ar = 0 then
            (perform_cutover ex i (set_acct i (\<lambda>a. a\<lparr>is_incr_migrated := True\<rparr>) s), Inr True)
          else
            (let (r, s1) = execute_command ex (CurlImportIncr (mail (acct s i)) inc_date) s in
             if verify_curl_response (outp r) then
               (perform_cutover ex i (set_acct i (\<lambda>a. a\<lparr>is_incr_migrated := True\<rparr>) s1),
                Inr True)
             else (set_acct i (\<lambda>a. a\<lparr>is_incr_migrated := False\<rparr>) s1, Inr False)))"

text \<open>
  \<open>modify_ldiff_for_load_balancing\<close>: \<open>read_text\<close> raises when the file is missing and
  reads with universal newlines; \<open>write_text\<close> replaces the file.
\<close>

definition modify_ldiff_for_load_balancing ::
  "nat \<Rightarrow> string \<Rightarrow> state \<Rightarrow> state \<times> (error + bool)" where
  "modify_ldiff_for_load_balancing i target_store s =
     (case texts s (ldiff_path (acct s i)) of
        None \<Rightarrow> (s, Inl (FileNotFoundError (ldiff_path (acct s i))))
      | Some raw \<Rightarrow>
          (s\<lparr>texts := (texts s)(ldiff_path (acct s i) \<mapsto>
                 modify_ldiff_text target_store (universal_newlines raw))\<rparr>, Inr True))"

section \<open>The worker (\<open>MigrationWorker\<close>, migration\_worker.py)\<close>

text \<open>
  The fields of a worker that its processing reads. The two LDAP configurations stand
  for \<open>_get_source_ldap_config()\<close> and \<open>_get_dest_ldap_config()\<close>; in the source both
  are stubs that return the empty dictionary ("to be implemented with actual config"),
  which is the value \<open>stub_ldap_config\<close>.
\<close>

record worker =
  store_destinations :: "string list"
  store_index :: int
  do_full :: bool
  do_incr :: bool
  do_ldiff :: bool
  inc_date :: "string option"
  source_ldap_config :: "string \<Rightarrow> string option"
  dest_ldap_config :: "string \<Rightarrow> string option"

definition stub_ldap_config :: "string \<Rightarrow> string option" where
  "stub_ldap_config = (\<lambda>k. None)"

text \<open>\<open>xs[i]\<close> with Python's negative indices and its \<open>IndexError\<close>.\<close>

definition py_index :: "'a list \<Rightarrow> int \<Rightarrow> error + 'a" where
  "py_index xs i =
     (if 0 \<le> i \<and> i < int (length xs) then Inr (xs ! nat i)
      else if i < 0 \<and> - int (length xs) \<le> i then Inr (xs ! nat (int (length xs) + i))
      else Inl IndexError)"

text \<open>
  A \<open>for\<close> loop over the positions of the batch whose body may raise: the first
  exception ends the loop and is handed on with the state reached.
\<close>

fun for_each ::
  "(nat \<Rightarrow> state \<Rightarrow> state \<times> error option) \<Rightarrow> nat list \<Rightarrow> state \<Rightarrow> state \<times> error option" where
  "for_each body [] s = (s, None)"
| "for_each body (i # rest) s =
     (case body i s of
        (s1, Some e) \<Rightarrow> (s1, Some e)
      | (s1, None) \<Rightarrow> for_each body rest s1)"

definition positions :: "state \<Rightarrow> nat list" where
  "positions s = [0..<length (accounts s)]"

subsection \<open>\<open>_process_ldiff\<close>\<close>

definition target_store_of :: "worker \<Rightarrow> error + string option" where
  "target_store_of w =
     (if store_destinations w = [] then Inr None
      else (case py_index (store_destinations w) (store_index w) of
              Inl e \<Rightarrow> Inl e
            | Inr t \<Rightarrow> Inr (Some t)))"

definition ldiff_step ::
  "world \<Rightarrow> worker \<Rightarrow> string option \<Rightarrow> nat \<Rightarrow> state \<Rightarrow> state \<times> error option" where
  "ldiff_step ex w target_store i s =
     (case export_ldiff ex (source_ldap_config w) i s of
        (s1, Inl e) \<Rightarrow> (s1, Some e)
      | (s1, Inr ok) \<Rightarrow>
          (case target_store of
             None \<Rightarrow> (s1, None)
           | Some t \<Rightarrow>
               if is_ldiff_exported (acct s1 i) \<and> t \<noteq> [] then
                 (case modify_ldiff_for_load_balancing i t s1 of
                    (s2, Inl e) \<Rightarrow> (s2, Some e)
                  | (s2, Inr ok2) \<Rightarrow>
                      (case import_ldiff ex (dest_ldap_config w) i s2 of
                         (s3, Inl e) \<Rightarrow> (s3, Some e)
                       | (s3, Inr ok3) \<Rightarrow> (s3, None)))
               else (s1, None)))"

definition process_ldiff :: "world \<Rightarrow> worker \<Rightarrow> state \<Rightarrow> state \<times> error option" where
  "process_ldiff ex w s =
     (case target_store_of w of
        Inl e \<Rightarrow> (s, Some e)
      | Inr target_store \<Rightarrow> for_each (ldiff_step ex w target_store) (positions s) s)"

subsection \<open>\<open>_process_full_migration\<close>\<close>

definition record_dated :: "string \<Rightarrow> nat \<Rightarrow> state \<Rightarrow> state" where
  "record_dated tag i s =
     (case get_last_full_date s (acct s i) of
        None \<Rightarrow> s
      | Some last_full_date \<Rightarrow>
          if last_full_date \<noteq> [] then
            s\<lparr>ledger := record_session (ledger s) (mail (acct s i)) (tag @ last_full_date)\<rparr>
          else s)"

definition full_export_step :: "world \<Rightarrow> nat \<Rightarrow> state \<Rightarrow> state" where
  "full_export_step ex i s =
     (if check_session (ledger s) (mail (acct s i)) ''FULL-EXPORT'' then
        set_acct i (\<lambda>a. a\<lparr>is_exported := True\<rparr>) s
      else
        (let (s1, ok) = export_full_backup ex i s in
         if ok then record_dated ''FULL-EXPORT;'' i s1 else s1))"

definition full_import_step :: "world \<Rightarrow> nat \<Rightarrow> state \<Rightarrow> state" where
  "full_import_step ex i s =
     (if check_session (ledger s) (mail (acct s i)) ''FULL-IMPORT'' then
        set_acct i (\<lambda>a. a\<lparr>is_migrated := True\<rparr>) s
      else if is_exported (acct s i) then
        (let (s1, ok) = import_full_backup ex i (zimbra_mail_host (acct s i)) s in
         if ok then record_dated ''FULL-IMPORT;'' i s1 else s1)
      else s)"

definition process_full_migration :: "world \<Rightarrow> state \<Rightarrow> state" where
  "process_full_migration ex s =
     fold (full_import_step ex) (positions s) (fold (full_export_step ex) (positions s) s)"

subsection \<open>\<open>_process_incremental_migration\<close>\<close>

text \<open>\<open>self.inc_date or account.get_last_full_date()\<close>.\<close>

definition effective_date :: "worker \<Rightarrow> state \<Rightarrow> account \<Rightarrow> string option" where
  "effective_date w s a = (if truthy (inc_date w) then inc_date w else get_last_full_date s a)"

definition incr_export_step :: "world \<Rightarrow> worker \<Rightarrow> nat \<Rightarrow> state \<Rightarrow> state" where
  "incr_export_step ex w i s =
     (case effective_date w s (acct s i) of
        None \<Rightarrow> s
      | Some d \<Rightarrow>
          if d = [] then s
          else
            (let (s1, ok) = export_incremental_backup ex i d s in
             if is_incr_exported (acct s1 i) then
               s1\<lparr>ledger := record_session (ledger s1) (mail (acct s1 i)) (''INCR-EXPORT;'' @ d)\<rparr>
             else s1))"

definition incr_import_step ::
  "world \<Rightarrow> worker \<Rightarrow> nat \<Rightarrow> state \<Rightarrow> state \<times> error option" where
  "incr_import_step ex w i s =
     (case effective_date w s (acct s i) of
        None \<Rightarrow> (s, None)
      | Some d \<Rightarrow>
          if d = [] then (s, None)
          else
            (case import_incremental_backup ex i d (zimbra_mail_host (acct s i)) s of
               (s1, Inl e) \<Rightarrow> (s1, Some e)
             | (s1, Inr ok) \<Rightarrow>
                 if ok then
                   (s1\<lparr>ledger := record_session (ledger s1) (mail (acct s1 i))
                                    (''INCR-IMPORT;'' @ d)\<rparr>, None)
                 else (s1, None)))"

definition process_incremental_migration ::
  "world \<Rightarrow> worker \<Rightarrow> state \<Rightarrow> state \<times> error option" where
  "process_incremental_migration ex w s =
     for_each (incr_import_step ex w) (positions s)
       (fold (incr_export_step ex w) (positions s) s)"

subsection \<open>\<open>run\<close>\<close>

text \<open>
  The three phases in order inside one \<open>try\<close>; the exception that \<open>run\<close> catches and
  logs, if any, is returned with the final state.
\<close>

definition run :: "world \<Rightarrow> worker \<Rightarrow> state \<Rightarrow> state \<times> error option" where
  "run ex w s =
     (case (if do_ldiff w then process_ldiff ex w s else (s, None)) of
        (s1, Some e) \<Rightarrow> (s1, Some e)
      | (s1, None) \<Rightarrow>
          (let s2 = (if do_full w then process_full_migration ex s1 else s1)
           in if do_incr w then process_incremental_migration ex w s2 else (s2, None)))"

section \<open>Vocabulary of the properties\<close>

text \<open>The commands a step adds to the trace.\<close>

definition new_calls :: "state \<Rightarrow> state \<Rightarrow> call list" where
  "new_calls s s' = drop (length (trace s)) (trace s')"

text \<open>The full-export and full-import transfers of one account address.\<close>

definition full_transfer_of :: "string \<Rightarrow> call \<Rightarrow> bool" where
  "full_transfer_of m c = (c = CurlExportFull m \<or> c = CurlImportFull m)"

datatype migration_type = LDIFF | FULL | INCR

fun is_export_of :: "migration_type \<Rightarrow> call \<Rightarrow> bool" where
  "is_export_of LDIFF (LdapSearch m) = True"
| "is_export_of FULL (CurlExportFull m) = True"
| "is_export_of INCR (CurlExportIncr m d) = True"
| "is_export_of t c = False"

fun is_import_of :: "migration_type \<Rightarrow> call \<Rightarrow> bool" where
  "is_import_of LDIFF (LdapAdd m) = True"
| "is_import_of FULL (CurlImportFull m) = True"
| "is_import_of INCR (CurlImportIncr m d) = True"
| "is_import_of t c = False"

text \<open>
  Two-pass order of one migration type in a sequence of commands: no export of the type
  comes after an import of the type.
\<close>

fun exports_before_imports :: "migration_type \<Rightarrow> call list \<Rightarrow> bool" where
  "exports_before_imports t [] = True"
| "exports_before_imports t (c # cs) =
     (if is_import_of t c then \<not> list_ex (is_export_of t) cs \<and> exports_before_imports t cs
      else exports_before_imports t cs)"

section \<open>Lemmas on strings and the ledger\<close>

lemma startswith_prefix: "startswith s p = prefix p s"
  by (auto simp: startswith_def prefix_def) (metis append_take_drop_id)

lemma un_Cons: "c \<noteq> CR \<Longrightarrow> universal_newlines (c # ys) = c # universal_newlines ys"
  by (cases ys) auto

lemma un_append:
  "xs = [] \<or> last xs \<noteq> CR \<Longrightarrow>
   universal_newlines (xs @ ys) = universal_newlines xs @ universal_newlines ys"
  by (induction xs rule: universal_newlines.induct) (auto simp: un_Cons split: if_splits)

lemma un_id: "CR \<notin> set xs \<Longrightarrow> universal_newlines xs = xs"
  by (induction xs rule: universal_newlines.induct) auto

lemma un_last:
  "xs \<noteq> [] \<Longrightarrow> last xs = LF \<Longrightarrow>
   universal_newlines xs \<noteq> [] \<and> last (universal_newlines xs) = LF"
  by (induction xs rule: universal_newlines.induct) (auto split: if_splits)

lemma iter_lines_append:
  "xs \<noteq> [] \<Longrightarrow> last xs = LF \<Longrightarrow>
   iter_lines cur (xs @ ys) = iter_lines cur xs @ iter_lines [] ys"
  by (induction xs arbitrary: cur) (auto split: if_splits)

lemma iter_lines_single: "LF \<notin> set l \<Longrightarrow> iter_lines cur (l @ [LF]) = [cur @ l @ [LF]]"
  by (induction l arbitrary: cur) auto

lemma file_lines_append:
  assumes "txt = [] \<or> last txt = LF"
  shows "file_lines (txt @ rest) = file_lines txt @ file_lines rest"
proof (cases "txt = []")
  case True
  then show ?thesis by (simp add: file_lines_def)
next
  case False
  with assms have l: "last txt = LF" by simp
  have "universal_newlines (txt @ rest) = universal_newlines txt @ universal_newlines rest"
    using l by (intro un_append) simp
  moreover have "universal_newlines txt \<noteq> [] \<and> last (universal_newlines txt) = LF"
    using False l by (rule un_last)
  ultimately show ?thesis
    by (simp add: file_lines_def iter_lines_append)
qed

lemma scan_lines_append:
  "scan_lines m t (ls @ ls') = (scan_lines m t ls \<or> scan_lines m t ls')"
  by (induction ls) (auto simp: Let_def)

lemma scan_lines_iff:
  "scan_lines m t ls \<longleftrightarrow>
   (\<exists>l \<in> set ls. 2 \<le> length (line_fields l) \<and> line_fields l ! 0 = m \<and> prefix t (line_fields l ! 1))"
  by (induction ls) (auto simp: Let_def line_fields_def startswith_prefix)

lemma split_on_append_sep:
  "sep \<notin> set xs \<Longrightarrow> split_on sep (xs @ sep # ys) = xs # split_on sep ys"
  by (induction xs) (auto split: list.splits)

lemma check_record:
  "ledger_ok fl \<Longrightarrow>
   check_session (record_session fl m i) a t =
     (check_session fl a t \<or> scan_lines a t (file_lines (session_entry m i)))"
  by (cases fl) (auto simp: file_lines_append scan_lines_append)

lemma check_record_mono:
  "ledger_ok fl \<Longrightarrow> check_session fl a t \<Longrightarrow> check_session (record_session fl m i) a t"
  by (simp add: check_record)

lemma ledger_ok_record: "ledger_ok fl \<Longrightarrow> ledger_ok (record_session fl m i)"
  by (cases fl) (auto simp: session_entry_def)

lemma rstrip_snoc: "rstrip (xs @ [c]) = (if is_space c then rstrip xs else xs @ [c])"
  by (simp add: rstrip_def)

lemma is_space_LF: "is_space LF"
  by (simp add: is_space_def)

lemma not_space_SEMI: "\<not> is_space SEMI"
  by (simp add: is_space_def)

lemma rstrip_after_nonspace:
  "\<not> is_space c \<Longrightarrow> rstrip (xs @ c # ys) = xs @ c # rstrip ys"
  by (simp add: rstrip_def dropWhile_append)

lemma file_lines_entry:
  assumes "addr_ok m" "LF \<notin> set i" "CR \<notin> set i"
  shows "file_lines (session_entry m i) = [session_entry m i]"
proof -
  have "CR \<notin> set (session_entry m i)"
    using assms by (auto simp: session_entry_def addr_ok_def)
  then have "universal_newlines (session_entry m i) = session_entry m i" by (rule un_id)
  moreover have "iter_lines [] ((m @ SEMI # i) @ [LF]) = [[] @ (m @ SEMI # i) @ [LF]]"
    using assms by (intro iter_lines_single) (auto simp: addr_ok_def)
  ultimately show ?thesis by (simp add: file_lines_def session_entry_def)
qed

lemma line_fields_entry:
  assumes "addr_ok m"
  shows "line_fields (session_entry m i) = m # split_on SEMI (rstrip i)"
proof -
  have "rstrip ((m @ SEMI # i) @ [LF]) = rstrip (m @ SEMI # i)"
    by (simp only: rstrip_snoc is_space_LF if_True)
  also have "\<dots> = m @ SEMI # rstrip i"
    by (rule rstrip_after_nonspace [OF not_space_SEMI])
  finally have r: "rstrip (session_entry m i) = m @ SEMI # rstrip i"
    by (simp add: session_entry_def)
  have "lstrip (m @ SEMI # rstrip i) = m @ SEMI # rstrip i"
    using assms by (cases m) (auto simp: lstrip_def addr_ok_def not_space_SEMI)
  with r have "strip (session_entry m i) = m @ SEMI # rstrip i"
    by (simp add: strip_def)
  then show ?thesis
    using assms by (simp add: line_fields_def split_on_append_sep addr_ok_def)
qed

lemma check_session_iff:
  "check_session fl a p \<longleftrightarrow>
     (\<exists>txt. fl = Content txt \<and>
        (\<exists>l \<in> set (file_lines txt).
           2 \<le> length (line_fields l) \<and> line_fields l ! 0 = a \<and> prefix p (line_fields l ! 1)))"
  by (cases fl) (simp_all add: scan_lines_iff)

lemma scan_entry:
  assumes "addr_ok m" "LF \<notin> set i" "CR \<notin> set i"
  shows "scan_lines a t (file_lines (session_entry m i)) \<longleftrightarrow>
           (m = a \<and> prefix t (hd (split_on SEMI (rstrip i))))"
proof -
  have ne: "split_on SEMI (rstrip i) \<noteq> []"
    by (cases "rstrip i") (auto split: list.splits)
  then obtain p ps where "split_on SEMI (rstrip i) = p # ps"
    by (cases "split_on SEMI (rstrip i)") auto
  then show ?thesis
    using assms by (auto simp: file_lines_entry scan_lines_iff line_fields_entry)
qed

section \<open>Lemmas on the LDIFF rewriting\<close>

lemma modify_lines_acc: "modify_lines t acc ls = acc @ List.map_filter (line_rule t) ls"
  by (induction ls arbitrary: acc)
     (simp_all add: List.map_filter_simps line_rule_def startswith_prefix)

section \<open>The session ledger: prefix match and exact account match\<close>

text \<open>
  C2 (ledger prefix-match semantics). For a ledger whose text is empty or ends with a
  newline and an account address that the line format can hold, after
  \<open>record_session\<close> has stored \<open>FULL-EXPORT;03/01/2024\<close> for the address,
  \<open>check_session\<close> with \<open>FULL-EXPORT\<close> is true, and \<open>check_session\<close> with
  \<open>FULL-IMPORT\<close> is what it was before, so false unless an earlier entry already said
  so. In general \<open>check_session\<close> is true exactly when some line of the session file has
  at least two fields, the account address as its first field and a second field that
  starts with the queried prefix.
\<close>

theorem ledger_prefix_match:
  assumes "ledger_ok fl" and "addr_ok a"
  shows "check_session (record_session fl a ''FULL-EXPORT;03/01/2024'') a ''FULL-EXPORT''
       \<and> (check_session (record_session fl a ''FULL-EXPORT;03/01/2024'') a ''FULL-IMPORT''
            \<longleftrightarrow> check_session fl a ''FULL-IMPORT'')
       \<and> (\<forall>p. check_session fl a p \<longleftrightarrow>
            (\<exists>txt. fl = Content txt \<and>
               (\<exists>l \<in> set (file_lines txt).
                  2 \<le> length (line_fields l) \<and> line_fields l ! 0 = a
                  \<and> prefix p (line_fields l ! 1))))"
proof -
  have r: "rstrip ''FULL-EXPORT;03/01/2024'' = ''FULL-EXPORT;03/01/2024''"
    by (simp add: rstrip_def is_space_def)
  have e: "scan_lines a t (file_lines (session_entry a ''FULL-EXPORT;03/01/2024''))
             \<longleftrightarrow> prefix t ''FULL-EXPORT''" for t
    using assms(2) by (subst scan_entry) (simp_all add: r)
  have 1: "check_session (record_session fl a ''FULL-EXPORT;03/01/2024'') a ''FULL-EXPORT''"
    using assms(1) by (simp add: check_record e)
  have 2: "check_session (record_session fl a ''FULL-EXPORT;03/01/2024'') a ''FULL-IMPORT''
            \<longleftrightarrow> check_session fl a ''FULL-IMPORT''"
    using assms(1) by (simp add: check_record e)
  show ?thesis using 1 2 check_session_iff by blast
qed

theorem ledger_prefix_match_witness:
  "ledger_ok (Content (''carol@example.com;INCR-EXPORT;02/01/2024'' @ [LF]))
   \<and> addr_ok ''bob@example.com''
   \<and> check_session
        (record_session (Content (''carol@example.com;INCR-EXPORT;02/01/2024'' @ [LF]))
           ''bob@example.com'' ''FULL-EXPORT;03/01/2024'')
        ''bob@example.com'' ''FULL-EXPORT''
   \<and> \<not> check_session
        (record_session (Content (''carol@example.com;INCR-EXPORT;02/01/2024'' @ [LF]))
           ''bob@example.com'' ''FULL-EXPORT;03/01/2024'')
        ''bob@example.com'' ''FULL-IMPORT''"
proof -
  let ?L = "Content (''carol@example.com;INCR-EXPORT;02/01/2024'' @ [LF])"
  have h1: "ledger_ok ?L" by simp
  have h2: "addr_ok ''bob@example.com''" by (simp add: addr_ok_def is_space_def)
  have h3: "\<not> check_session ?L ''bob@example.com'' ''FULL-IMPORT''" by code_simp
  from ledger_prefix_match [OF h1 h2] h1 h2 h3 show ?thesis by blast
qed

text \<open>
  C10 (exact account match in the ledger lookup). \<open>check_session\<close> looks only at the
  lines that split at \<open>;\<close> into at least two fields and whose first field equals the
  queried address; of those only the second field is compared, by prefix. Lines with
  fewer fields are passed over (the function is total: it never raises). Hence an entry
  recorded for another address, even one that extends the queried address or is a
  beginning of it, never changes the answer for the queried address.
\<close>

theorem ledger_exact_account:
  "(check_session fl a p \<longleftrightarrow>
      (\<exists>txt. fl = Content txt \<and>
         (\<exists>l \<in> set (filter (\<lambda>l. 2 \<le> length (line_fields l) \<and> line_fields l ! 0 = a)
                           (file_lines txt)).
            prefix p (line_fields l ! 1))))
   \<and> (ledger_ok fl \<and> addr_ok b \<and> b \<noteq> a \<and> LF \<notin> set i \<and> CR \<notin> set i \<longrightarrow>
        check_session (record_session fl b i) a p = check_session fl a p)"
proof -
  have 1: "check_session fl a p \<longleftrightarrow>
      (\<exists>txt. fl = Content txt \<and>
         (\<exists>l \<in> set (filter (\<lambda>l. 2 \<le> length (line_fields l) \<and> line_fields l ! 0 = a)
                           (file_lines txt)).
            prefix p (line_fields l ! 1)))"
    by (cases fl) (auto simp: scan_lines_iff)
  have 2: "check_session (record_session fl b i) a p = check_session fl a p"
    if "ledger_ok fl" "addr_ok b" "b \<noteq> a" "LF \<notin> set i" "CR \<notin> set i"
    using that by (simp add: check_record scan_entry)
  show ?thesis using 1 2 by blast
qed

theorem ledger_exact_account_witness:
  "\<not> check_session
      (record_session (Content (''short line'' @ [LF]))
         ''bob@example.com.au'' ''FULL-EXPORT;03/01/2024'')
      ''bob@example.com'' ''FULL-EXPORT''
   \<and> \<not> check_session
      (record_session (Content (''short line'' @ [LF]))
         ''bob@example.com.au'' ''FULL-EXPORT;03/01/2024'')
      ''bob@example.com.au.nz'' ''FULL-EXPORT''"
proof -
  let ?L = "Content (''short line'' @ [LF])"
  let ?b = "''bob@example.com.au''"
  let ?i = "''FULL-EXPORT;03/01/2024''"
  have h: "ledger_ok ?L \<and> addr_ok ?b \<and> LF \<notin> set ?i \<and> CR \<notin> set ?i"
    by (simp add: addr_ok_def is_space_def)
  have n1: "\<not> check_session ?L ''bob@example.com'' ''FULL-EXPORT''" by code_simp
  have n2: "\<not> check_session ?L ''bob@example.com.au.nz'' ''FULL-EXPORT''" by code_simp
  have d1: "?b \<noteq> ''bob@example.com''" by simp
  have d2: "?b \<noteq> ''bob@example.com.au.nz''" by simp
  from ledger_exact_account [of ?L "''bob@example.com''" "''FULL-EXPORT''" ?b ?i] h n1 d1
  have a: "\<not> check_session (record_session ?L ?b ?i) ''bob@example.com'' ''FULL-EXPORT''"
    by blast
  from ledger_exact_account [of ?L "''bob@example.com.au.nz''" "''FULL-EXPORT''" ?b ?i] h n2 d2
  have b: "\<not> check_session (record_session ?L ?b ?i) ''bob@example.com.au.nz'' ''FULL-EXPORT''"
    by blast
  from a b show ?thesis by blast
qed

section \<open>The LDIFF transform\<close>

text \<open>
  C6, as the code has it (LDIFF transform line rules). The transform of
  \<open>modify_ldiff_for_load_balancing\<close> maps the line rule over the lines in order: a line
  that begins with \<open>zimbraMailHost:\<close> becomes \<open>zimbraMailHost: <target>\<close>, a line that
  begins with \<open>zimbraMailTransport:\<close> becomes \<open>zimbraMailTransport: lmtp:<target>:7025\<close>,
  a line that begins with \<open>zimbraPrefChildVisibleAccount:\<close> is dropped, and every other
  line is kept as it is; the kept lines stay in their original order and the text
  written back is their join with newlines.
\<close>

theorem ldiff_transform_lines:
  "modify_lines target_store [] ls = List.map_filter (line_rule target_store) ls
   \<and> modify_ldiff_text target_store content =
       join_with [LF] (List.map_filter (line_rule target_store) (split_on LF content))"
  by (simp add: modify_lines_acc modify_ldiff_text_def)

theorem ldiff_transform_lines_witness:
  "modify_lines ''newstore.example.com'' []
     [''dn: uid=a'', ''zimbraMailHost: old.example.com'',
      ''zimbraPrefChildVisibleAccount: x'', ''zimbraMailTransport: lmtp:old:7025'', ''cn: a'']
   = [''dn: uid=a'', ''zimbraMailHost: newstore.example.com'',
      ''zimbraMailTransport: lmtp:newstore.example.com:7025'', ''cn: a'']"
proof -
  have "modify_lines ''newstore.example.com'' []
     [''dn: uid=a'', ''zimbraMailHost: old.example.com'',
      ''zimbraPrefChildVisibleAccount: x'', ''zimbraMailTransport: lmtp:old:7025'', ''cn: a'']
    = List.map_filter (line_rule ''newstore.example.com'')
     [''dn: uid=a'', ''zimbraMailHost: old.example.com'',
      ''zimbraPrefChildVisibleAccount: x'', ''zimbraMailTransport: lmtp:old:7025'', ''cn: a'']"
    by (rule conjunct1 [OF ldiff_transform_lines])
  also have "\<dots> = [''dn: uid=a'', ''zimbraMailHost: newstore.example.com'',
      ''zimbraMailTransport: lmtp:newstore.example.com:7025'', ''cn: a'']"
    by (simp add: List.map_filter_simps line_rule_def)
  finally show ?thesis .
qed

text \<open>
  C6 as stated fails: a line that begins with \<open>zimbraMailTransport:\<close> is none of the
  two special lines of the claim, yet it is not passed through unchanged.
\<close>

theorem ldiff_transport_counterexample:
  "modify_lines ''newstore'' [] [''zimbraMailTransport: lmtp:old:7025'']
   \<noteq> List.map_filter (spec_line_rule ''newstore'') [''zimbraMailTransport: lmtp:old:7025'']"
  by (simp add: List.map_filter_simps spec_line_rule_def startswith_def)

section \<open>Static partitioning of the account list\<close>

lemma concat_equal_slices:
  "concat (map (\<lambda>i. take per (drop (i * per) xs)) [0..<m]) = take (m * per) xs"
proof (induction m)
  case 0
  then show ?case by simp
next
  case (Suc m)
  have "take (m * per) xs @ take per (drop (m * per) xs) = take (m * per + per) xs"
    by (simp add: take_add)
  with Suc show ?case by (simp add: add.commute)
qed

lemma fold_max_lower: "a \<le> fold max xs (a::nat)"
  by (induction xs arbitrary: a) (auto intro: order_trans [OF max.cobounded2])

lemma fold_max_member: "x \<in> set xs \<Longrightarrow> x \<le> fold max xs (a::nat)"
proof (induction xs arbitrary: a)
  case Nil
  then show ?case by simp
next
  case (Cons y ys)
  show ?case
  proof (cases "x = y")
    case True
    have "max y a \<le> fold max ys (max y a)" by (rule fold_max_lower)
    with True show ?thesis by simp
  next
    case False
    with Cons show ?thesis by simp
  qed
qed

lemma largest_batch_ge: "b \<in> set bs \<Longrightarrow> length b \<le> largest_batch bs"
  by (simp add: largest_batch_def fold_max_member)

lemma thread_accounts_inner:
  assumes "int i < T - 1" "T \<ge> 2"
  shows "thread_accounts accs T per i = take per (drop (i * per) accs)"
  using assms by (simp add: thread_accounts_def py_slice_def Let_def)

lemma thread_accounts_last:
  assumes "int i = T - 1"
  shows "thread_accounts accs T per i = drop (i * per) accs"
  using assms by (simp add: thread_accounts_def py_slice_def Let_def)

lemma batches_many:
  assumes "2 \<le> T"
  shows "worker_batches accs T =
     Inr (map (\<lambda>i. take (length accs div nat T) (drop (i * (length accs div nat T)) accs))
              [0..<nat T - 1]
          @ [drop ((nat T - 1) * (length accs div nat T)) accs])"
proof -
  let ?k = "nat T" and ?per = "length accs div nat T"
  have per: "nat (int (length accs) div T) = ?per"
    using assms by (simp add: nat_div_distrib)
  have k: "[0..<?k] = [0..<?k - 1] @ [?k - 1]"
    using assms by (metis Suc_diff_1 upt_Suc_append zero_le nat_0_less_mult_iff
        zero_less_nat_eq less_le_trans zero_less_numeral nat_mult_1 linorder_not_less not_le)
  have inner: "map (thread_accounts accs T ?per) [0..<?k - 1]
      = map (\<lambda>i. take ?per (drop (i * ?per) accs)) [0..<?k - 1]"
    using assms by (intro map_cong refl thread_accounts_inner) auto
  have lst: "thread_accounts accs T ?per (?k - 1) = drop ((?k - 1) * ?per) accs"
    using assms by (intro thread_accounts_last) auto
  have "map (thread_accounts accs T ?per) [0..<?k]
      = map (thread_accounts accs T ?per) [0..<?k - 1] @ [thread_accounts accs T ?per (?k - 1)]"
    by (subst k) simp
  also have "\<dots> = map (\<lambda>i. take ?per (drop (i * ?per) accs)) [0..<?k - 1]
      @ [drop ((?k - 1) * ?per) accs]"
    by (simp only: inner lst)
  finally have m: "map (thread_accounts accs T ?per) [0..<?k]
      = map (\<lambda>i. take ?per (drop (i * ?per) accs)) [0..<?k - 1]
      @ [drop ((?k - 1) * ?per) accs]" .
  have "worker_batches accs T = Inr (map (thread_accounts accs T ?per) [0..<?k])"
    using assms unfolding worker_batches_def Let_def per by simp
  then show ?thesis by (simp only: m)
qed


lemma batch_sizes_many:
  fixes accs :: "'a list"
  assumes "2 \<le> k"
  defines "per \<equiv> length accs div k"
  defines "bs \<equiv> map (\<lambda>i. take per (drop (i * per) accs)) [0..<k - 1]
                  @ [drop ((k - 1) * per) accs]"
  shows "length bs = k"
    and "concat bs = accs"
    and "\<And>i. i < k \<Longrightarrow> length (bs ! i) =
            (if Suc i < k then per else per + length accs mod k)"
proof -
  show len: "length bs = k" using assms(1) by (simp add: bs_def)
  show "concat bs = accs"
    by (simp add: bs_def concat_equal_slices)
  have whole: "k * per + length accs mod k = length accs"
    by (simp add: per_def)
  have km: "(k - 1) * per + per = k * per"
    using assms(1) by (cases k) simp_all
  show "length (bs ! i) = (if Suc i < k then per else per + length accs mod k)"
    if "i < k" for i
  proof (cases "Suc i < k")
    case True
    then have i: "i < k - 1" by simp
    have "Suc i * per \<le> (k - 1) * per"
      using i by (intro mult_le_mono1) simp
    then have "i * per + per \<le> length accs"
      using whole km by simp
    moreover have "bs ! i = take per (drop (i * per) accs)"
      using i by (simp add: bs_def nth_append)
    ultimately show ?thesis using True by simp
  next
    case False
    with that have i: "i = k - 1" by simp
    have "bs ! i = drop ((k - 1) * per) accs"
      by (simp add: bs_def nth_append i)
    moreover have "length accs - (k - 1) * per = per + length accs mod k"
      using whole km by simp
    ultimately show ?thesis using False by simp
  qed
qed


lemma balanced_two_sizes:
  assumes "\<And>b. b \<in> set bs \<Longrightarrow> length b = per \<or> length b = per + r"
    and "\<exists>b \<in> set bs. length b = per + r"
    and "1 \<le> per"
  shows "balanced bs"
proof -
  from assms(2) obtain b0 where "b0 \<in> set bs" "length b0 = per + r" by blast
  then have big: "per + r \<le> largest_batch bs"
    using largest_batch_ge [of b0 bs] by simp
  have "\<bar>int (length b) - int (length c)\<bar> \<le> int (largest_batch bs) - 1"
    if "b \<in> set bs" "c \<in> set bs" for b c
    using assms(1) [OF that(1)] assms(1) [OF that(2)] big assms(3) by auto
  then show ?thesis by (simp add: balanced_def list_all_iff)
qed

text \<open>
  C7, as the code has it (partitioning coverage and balance). For every account list and
  thread count of at least one, \<open>run_migration\<close> builds one batch per worker; the
  batches are consecutive slices whose concatenation in worker order is the account
  list, every worker but the last gets \<open>N div T\<close> accounts and the last gets
  \<open>N div T + N mod T\<close>. When there are at least as many accounts as threads, any two
  batch sizes differ by at most one less than the largest batch size.
\<close>

theorem partition_coverage:
  fixes accs :: "'a list"
  assumes "1 \<le> num_threads"
  shows "\<exists>bs. worker_batches accs num_threads = Inr bs
           \<and> length bs = nat num_threads
           \<and> concat bs = accs
           \<and> (\<forall>i < length bs. length (bs ! i) =
                 (if Suc i < length bs then length accs div nat num_threads
                  else length accs div nat num_threads + length accs mod nat num_threads))
           \<and> (num_threads \<le> int (length accs) \<longrightarrow> balanced bs)"
proof (cases "num_threads = 1")
  case True
  have "balanced [accs]" if "1 \<le> length accs"
    using that by (cases accs) (simp_all add: balanced_def largest_batch_def)
  with True show ?thesis by (simp add: worker_batches_def)
next
  case False
  with assms have T: "2 \<le> num_threads" by simp
  let ?k = "nat num_threads"
  let ?per = "length accs div ?k"
  let ?bs = "map (\<lambda>i. take ?per (drop (i * ?per) accs)) [0..<?k - 1]
               @ [drop ((?k - 1) * ?per) accs]"
  have k: "2 \<le> ?k" using T by simp
  note sz = batch_sizes_many [OF k, where accs = accs]
  have w: "worker_batches accs num_threads = Inr ?bs" by (rule batches_many [OF T])
  have sizes: "\<forall>i < length ?bs. length (?bs ! i) =
      (if Suc i < length ?bs then ?per else ?per + length accs mod ?k)"
    using sz(1) sz(3) by simp
  have bal: "balanced ?bs" if "num_threads \<le> int (length accs)"
  proof (rule balanced_two_sizes [where per = ?per and r = "length accs mod ?k"])
    fix b assume "b \<in> set ?bs"
    then obtain i where "i < length ?bs" "b = ?bs ! i" by (metis in_set_conv_nth)
    with sizes show "length b = ?per \<or> length b = ?per + length accs mod ?k" by metis
  next
    have "length (?bs ! (?k - 1)) = ?per + length accs mod ?k"
      using sz(3) [of "?k - 1"] k by simp
    moreover have "?bs ! (?k - 1) \<in> set ?bs"
    proof (rule nth_mem)
      have "?k - 1 < ?k" using k by simp
      then show "?k - 1 < length ?bs" by (simp only: sz(1))
    qed
    ultimately show "\<exists>b \<in> set ?bs. length b = ?per + length accs mod ?k" by blast
  next
    from that have "?k \<le> length accs" by simp
    then show "1 \<le> ?per" using k by (simp add: div_greater_zero_iff Suc_le_eq)
  qed
  show ?thesis
    using w sz(1) sz(2) sizes bal by blast
qed

theorem partition_coverage_witness:
  "worker_batches [''a'', ''b'', ''c'', ''d'', ''e'', ''f'', ''g''] 3
     = Inr [[''a'', ''b''], [''c'', ''d''], [''e'', ''f'', ''g'']]
   \<and> balanced [[''a'', ''b''], [''c'', ''d''], [''e'', ''f'', ''g'']]"
proof -
  have e: "worker_batches [''a'', ''b'', ''c'', ''d'', ''e'', ''f'', ''g''] 3
     = Inr [[''a'', ''b''], [''c'', ''d''], [''e'', ''f'', ''g'']]"
    by code_simp
  have h: "(1::int) \<le> 3" by simp
  from partition_coverage [OF h, of "[''a'', ''b'', ''c'', ''d'', ''e'', ''f'', ''g'']"] e
  show ?thesis by simp
qed

text \<open>
  C7 as stated fails when there are fewer accounts than threads: three accounts on four
  threads give three empty batches and one batch of three, whose sizes differ by three,
  more than one less than the largest size.
\<close>

theorem partition_balance_counterexample:
  "worker_batches [''a'', ''b'', ''c''] 4 = Inr [[], [], [], [''a'', ''b'', ''c'']]
   \<and> \<not> balanced [[], [], [], [''a'', ''b'', ''c'']]"
  by code_simp

end
